theory Spec2Isabelle
  imports Main
begin

section \<open>Python values\<close>

text \<open>
  The values a Qdrant payload holds, as far as \<open>format_context\<close> looks at them: it only
  puts them through an f-string, that is through \<open>str()\<close>. A number, list or nested object
  is carried with the text \<open>str()\<close> gives for it.
\<close>

datatype pyval = PyNone | PyBool bool | PyStr string | PyOther string

fun py_str :: "pyval \<Rightarrow> string" where
  "py_str PyNone = ''None''"
| "py_str (PyBool True) = ''True''"
| "py_str (PyBool False) = ''False''"
| "py_str (PyStr s) = s"
| "py_str (PyOther s) = s"

text \<open>A payload is a Python dict with string keys.\<close>

type_synonym doc = "string \<rightharpoonup> pyval"

text \<open>\<open>d.get(k, default)\<close>: the stored value when the key is present, whatever it is.\<close>

definition dict_get :: "doc \<Rightarrow> string \<Rightarrow> pyval \<Rightarrow> pyval" where
  "dict_get d k dflt = (case d k of None \<Rightarrow> dflt | Some v \<Rightarrow> v)"

definition newline :: string where
  "newline = [CHR 0x0A]"

text \<open>\<open>sep.join(xs)\<close>\<close>

fun str_join :: "string \<Rightarrow> string list \<Rightarrow> string" where
  "str_join sep [] = []"
| "str_join sep [x] = x"
| "str_join sep (x # y # ys) = x @ sep @ str_join sep (y # ys)"

section \<open>Context Formatter\<close>

text \<open>
  \<^verbatim>\<open>
  def format_context(docs):
      return "\n".join([
          f"- {doc.get('product_name', 'Tanpa Nama')}, {doc.get('description', '')}
              (Gambar: {doc.get('product_image_link', '-')})"
          for doc in docs
      ])
  \<close>
  \<open>format_line\<close> is the f-string of one \<open>doc\<close>.
\<close>

definition format_line :: "doc \<Rightarrow> string" where
  "format_line doc =
     ''- '' @ py_str (dict_get doc ''product_name'' (PyStr ''Tanpa Nama'')) @
     '', '' @ py_str (dict_get doc ''description'' (PyStr '''')) @
     '' (Gambar: '' @ py_str (dict_get doc ''product_image_link'' (PyStr ''-'')) @ '')''"

definition format_context :: "doc list \<Rightarrow> string" where
  "format_context docs = str_join newline (map format_line docs)"

subsection \<open>The formatter as the specification words it\<close>

text \<open>
  A record as the specification sees it: a name, a description and an image reference,
  each of them possibly absent.
\<close>

record spec_record =
  rec_name :: "string option"
  rec_description :: "string option"
  rec_image :: "string option"

definition or_fallback :: "string option \<Rightarrow> string \<Rightarrow> string" where
  "or_fallback field fallback = (case field of None \<Rightarrow> fallback | Some s \<Rightarrow> s)"

definition spec_line :: "spec_record \<Rightarrow> string" where
  "spec_line r =
     ''- '' @ or_fallback (rec_name r) ''Tanpa Nama'' @ '', '' @
     or_fallback (rec_description r) '''' @
     '' (Gambar: '' @ or_fallback (rec_image r) ''-'' @ '')''"

text \<open>Lines in insertion order, a newline between each two neighbours.\<close>

definition spec_format :: "spec_record list \<Rightarrow> string" where
  "spec_format rs =
     (case map spec_line rs of
        [] \<Rightarrow> []
      | l # ls \<Rightarrow> l @ concat (map (\<lambda>x. newline @ x) ls))"

text \<open>The three fields of a payload that the formatter reads, as texts.\<close>

definition doc_fields :: "doc \<Rightarrow> spec_record" where
  "doc_fields d =
     \<lparr> rec_name = map_option py_str (d ''product_name''),
       rec_description = map_option py_str (d ''description''),
       rec_image = map_option py_str (d ''product_image_link'') \<rparr>"

section \<open>External services\<close>

text \<open>
  Exceptions. \<open>except Exception\<close> (in \<open>embed_text\<close> and \<open>retrieve_documents\<close>) catches the
  instances of \<open>Exception\<close>; the bare \<open>except:\<close> of the conversation loop catches every
  \<open>BaseException\<close>. \<open>ServiceError msg\<close> is any instance of \<open>Exception\<close> that a client
  library raises, with \<open>str(e) = msg\<close>; \<open>BaseExceptionOnly msg\<close> is a \<open>BaseException\<close>
  that is no \<open>Exception\<close> (\<open>KeyboardInterrupt\<close>, \<open>SystemExit\<close>).
\<close>

datatype exn = IndexError | TypeError | AttributeError
  | ServiceError string | BaseExceptionOnly string

fun is_Exception :: "exn \<Rightarrow> bool" where
  "is_Exception (BaseExceptionOnly m) = False"
| "is_Exception e = True"

fun exn_str :: "exn \<Rightarrow> string" where
  "exn_str IndexError = ''list index out of range''"
| "exn_str TypeError =
     [CHR 0x27] @ ''NoneType'' @ [CHR 0x27] @ '' object is not subscriptable''"
| "exn_str AttributeError =
     [CHR 0x27] @ ''NoneType'' @ [CHR 0x27] @ '' object has no attribute '' @
     [CHR 0x27] @ ''content'' @ [CHR 0x27]"
| "exn_str (ServiceError m) = m"
| "exn_str (BaseExceptionOnly m) = m"

text \<open>
  A Python float, as mantissa and binary exponent. The code never looks inside an
  embedding vector: it tests the vector's truthiness and hands it to the index.
\<close>

datatype pyfloat = PyFloat int int

text \<open>\<open>response.embeddings[0].values\<close>: both \<open>embeddings\<close> and \<open>values\<close> are optional.\<close>

datatype content_embedding = ContentEmbedding (embedding_values: "pyfloat list option")

datatype embed_response = EmbedResponse (embeddings: "content_embedding list option")

text \<open>A hit of the vector index; the code keeps \<open>data.payload\<close> only.\<close>

datatype scored_point = ScoredPoint (payload: doc)

text \<open>\<open>chunk.choices[0].delta.content\<close> of a completion stream chunk.\<close>

datatype delta = Delta (delta_content: "string option")

datatype choice = Choice (delta: "delta option")

datatype chunk = Chunk (choices: "choice list")

text \<open>
  The three external services and Python's \<open>str()\<close> of a list of dicts, which the prompt's
  f-string applies to \<open>docs\<close>. Each service either raises or returns. The embedding outcome
  stands for the body of \<open>embed_text\<close>'s \<open>try\<close> up to the response
  (\<open>get_genai_client()\<close> and \<open>client.models.embed_content(...)\<close>), the completion outcome for
  \<open>get_together_client()\<close> and \<open>client.chat.completions.create(...)\<close>. A completion
  stream is finite: the chunks it delivers, then either its end (\<open>None\<close>) or an
  exception raised by the next read. The fixed search parameters (collection, limit 8,
  score threshold 0.7, exact search, \<open>hnsw_ef\<close> 512, payloads and vectors requested) are
  constants of the request.
\<close>

record env =
  embed_content :: "string \<Rightarrow> exn + embed_response"
  qdrant_search :: "pyfloat list \<Rightarrow> exn + scored_point list"
  completions_create :: "string \<Rightarrow> exn + (chunk list \<times> exn option)"
  repr_docs :: "doc list \<Rightarrow> string"

section \<open>Effects\<close>

text \<open>What a render pass puts on the page.\<close>

datatype element =
    Closing_message
  | Page_title
  | Intro
  | Chat_form nat
  | Autofocus_script nat
  | Live_answer string
  | User_message string
  | Assistant_message bool string
  | Exit_button
  | Auto_scroll_script
  | Footer

datatype error_kind = Embedding_failed | Retrieval_failed

record turn =
  role :: string
  content :: string

text \<open>
  The effects of the code, in the order they happen: requests to the external services,
  exceptions at the place they are raised, \<open>st.error\<close> boxes, page elements, and appends
  to \<open>st.session_state.messages\<close>.
\<close>

datatype event =
    Embed_request string
  | Search_request "pyfloat list"
  | Completion_request string
  | Raised exn
  | Error_box error_kind string
  | Shown element
  | Appended turn

fun is_search_request :: "event \<Rightarrow> bool" where
  "is_search_request (Search_request v) = True"
| "is_search_request e = False"

fun is_completion_request :: "event \<Rightarrow> bool" where
  "is_completion_request (Completion_request p) = True"
| "is_completion_request e = False"

fun is_raised :: "event \<Rightarrow> bool" where
  "is_raised (Raised e) = True"
| "is_raised e = False"

fun is_appended :: "event \<Rightarrow> bool" where
  "is_appended (Appended t) = True"
| "is_appended e = False"

section \<open>Embedding Client and Vector Search Client\<close>

text \<open>\<open>response.embeddings[0].values\<close>\<close>

definition first_values :: "embed_response \<Rightarrow> exn + pyfloat list option" where
  "first_values response =
     (case embeddings response of
        None \<Rightarrow> Inl TypeError
      | Some [] \<Rightarrow> Inl IndexError
      | Some (emb # _) \<Rightarrow> Inr (embedding_values emb))"

text \<open>
  \<^verbatim>\<open>
  def embed_text(text):
      try:
          client = get_genai_client()
          response = client.models.embed_content(...)
          return response.embeddings[0].values
      except Exception as e:
          st.error(f"... Gagal membuat embedding: {e}")
          return None
  \<close>
  The result is the returned value (\<open>Inr\<close>) or the exception that leaves the function
  (\<open>Inl\<close>), with the effects.
\<close>

definition embed_text :: "env \<Rightarrow> string \<Rightarrow> (exn + pyfloat list option) \<times> event list" where
  "embed_text env text =
     (case (case embed_content env text of
              Inl e \<Rightarrow> Inl e
            | Inr response \<Rightarrow> first_values response) of
        Inr vals \<Rightarrow> (Inr vals, [Embed_request text])
      | Inl e \<Rightarrow>
          (if is_Exception e
           then (Inr None,
                 [Embed_request text, Raised e, Error_box Embedding_failed (exn_str e)])
           else (Inl e, [Embed_request text, Raised e])))"

text \<open>
  \<^verbatim>\<open>
  def retrieve_documents(query):
      embedding = embed_text(query)
      if not embedding:
          return []
      ...
      try:
          results = qdrant_client.search(...)
          return [data.payload for data in results]
      except Exception as e:
          st.error(f"... Gagal mengambil dokumen: {e}")
          return []
  \<close>
  \<open>not embedding\<close> holds for \<open>None\<close> and for the empty list.
\<close>

definition retrieve_documents :: "env \<Rightarrow> string \<Rightarrow> (exn + doc list) \<times> event list" where
  "retrieve_documents env query =
     (case embed_text env query of
        (Inl e, tr) \<Rightarrow> (Inl e, tr)
      | (Inr None, tr) \<Rightarrow> (Inr [], tr)
      | (Inr (Some []), tr) \<Rightarrow> (Inr [], tr)
      | (Inr (Some (x # xs)), tr) \<Rightarrow>
          (case qdrant_search env (x # xs) of
             Inr results \<Rightarrow> (Inr (map payload results), tr @ [Search_request (x # xs)])
           | Inl e \<Rightarrow>
               (if is_Exception e
                then (Inr [],
                      tr @ [Search_request (x # xs), Raised e,
                            Error_box Retrieval_failed (exn_str e)])
                else (Inl e, tr @ [Search_request (x # xs), Raised e]))))"

section \<open>Answer Generator\<close>

definition not_found_fragment :: string where
  "not_found_fragment = ''Maaf, saya tidak menemukan informasi relevan.''"

text \<open>The prompt's f-string; \<open>docs_text\<close> is \<open>str(docs)\<close>.\<close>

definition build_prompt :: "string \<Rightarrow> string \<Rightarrow> string" where
  "build_prompt docs_text query =
     ''Gunakan informasi di bawah ini untuk menjawab pertanyaan pengguna seakurat mungkin. '' @
     ''selalu sertakan product_image_link agar user dapat mengakses gambar product:'' @
     newline @ newline @ docs_text @ newline @ newline @
     ''Pertanyaan: '' @ query @ newline @ newline @
     ''Jawaban yang akurat dan alami:''"

text \<open>\<open>x or ""\<close> for an optional string: \<open>None\<close> and the empty string are falsy.\<close>

definition or_empty :: "string option \<Rightarrow> string" where
  "or_empty x = (case x of None \<Rightarrow> [] | Some s \<Rightarrow> if s = [] then [] else s)"

text \<open>\<open>content = chunk.choices[0].delta.content or ""\<close>\<close>

definition chunk_content :: "chunk \<Rightarrow> exn + string" where
  "chunk_content chunk =
     (case choices chunk of
        [] \<Rightarrow> Inl IndexError
      | ch # _ \<Rightarrow>
          (case delta ch of
             None \<Rightarrow> Inl AttributeError
           | Some d \<Rightarrow> Inr (or_empty (delta_content d))))"

text \<open>
  A chunk on which \<open>chunk.choices[0].delta\<close> is an object, and the \<open>content\<close> found
  there (absent when it is \<open>None\<close>).
\<close>

definition has_delta :: "chunk \<Rightarrow> bool" where
  "has_delta chunk = (case choices chunk of [] \<Rightarrow> False | ch # _ \<Rightarrow> delta ch \<noteq> None)"

definition raw_content :: "chunk \<Rightarrow> string option" where
  "raw_content chunk =
     (case choices chunk of
        [] \<Rightarrow> None
      | ch # _ \<Rightarrow> (case delta ch of None \<Rightarrow> None | Some d \<Rightarrow> delta_content d))"

text \<open>
  \<^verbatim>\<open>
  response = ""
  for chunk in stream:
      content = chunk.choices[0].delta.content or ""
      response += content
      yield content
  \<close>
  The loop over the rest of the stream, from the current value of \<open>response\<close>: the
  fragments it yields, the final \<open>response\<close>, how it ends (\<open>None\<close>: the generator
  returns; \<open>Some e\<close>: \<open>e\<close> is raised into the consumer) and the effects.
\<close>

fun stream_loop ::
  "string \<Rightarrow> chunk list \<Rightarrow> exn option \<Rightarrow> string list \<times> string \<times> exn option \<times> event list"
where
  "stream_loop response [] None = ([], response, None, [])"
| "stream_loop response [] (Some e) = ([], response, Some e, [Raised e])"
| "stream_loop response (chunk # rest) fin =
     (case chunk_content chunk of
        Inl e \<Rightarrow> ([], response, Some e, [Raised e])
      | Inr content' \<Rightarrow>
          (case stream_loop (response @ content') rest fin of
             (ys, r, fin', tr) \<Rightarrow> (content' # ys, r, fin', tr)))"

text \<open>
  \<^verbatim>\<open>
  def generate_answer(query, docs):
      if not docs:
          yield "Maaf, saya tidak menemukan informasi relevan."
          return
      prompt = f"""..."""
      client = get_together_client()
      stream = client.chat.completions.create(model=..., messages=[...], stream=True)
      response = ""
      for chunk in stream: ...
  \<close>
  A generator, consumed to its end by the conversation loop: the fragments yielded in
  order, how the generator ends, and the effects.
\<close>

definition generate_answer ::
  "env \<Rightarrow> string \<Rightarrow> doc list \<Rightarrow> string list \<times> exn option \<times> event list"
where
  "generate_answer env query docs =
     (if docs = [] then ([not_found_fragment], None, [])
      else
        (let prompt = build_prompt (repr_docs env docs) query in
         case completions_create env prompt of
           Inl e \<Rightarrow> ([], Some e, [Completion_request prompt, Raised e])
         | Inr (chunks, fin) \<Rightarrow>
             (case stream_loop [] chunks fin of
                (ys, r, fin', tr) \<Rightarrow> (ys, fin', Completion_request prompt # tr))))"

section \<open>Conversation Controller\<close>

definition fallback_response :: string where
  "fallback_response = ''Maaf, saya tidak menemukan informasi relevan.''"

text \<open>
  \<^verbatim>\<open>
  try:
      docs = retrieve_documents(user_input)
      response_text = ""
      for chunk in generate_answer(user_input, docs):
          response_text += chunk
  except:
      response_text = "Maaf, saya tidak menemukan informasi relevan."
  \<close>
  The value of \<open>response_text\<close> after the block, and the effects.
\<close>

definition pipeline :: "env \<Rightarrow> string \<Rightarrow> string \<times> event list" where
  "pipeline env user_input =
     (case retrieve_documents env user_input of
        (Inl e, tr) \<Rightarrow> (fallback_response, tr)
      | (Inr docs, tr) \<Rightarrow>
          (case generate_answer env user_input docs of
             (ys, None, tr') \<Rightarrow> (foldl (@) [] ys, tr @ tr')
           | (ys, Some e, tr') \<Rightarrow> (fallback_response, tr @ tr')))"

text \<open>
  \<open>st.session_state\<close>: the two keys the script uses, each possibly absent, and the keyed
  widget values the framework keeps there (\<open>input_i\<close>). \<open>clear()\<close> removes all of them.
\<close>

record session_state =
  messages :: "turn list option"
  exited :: "bool option"
  widgets :: "string \<rightharpoonup> string"

definition new_session :: session_state where
  "new_session = \<lparr> messages = None, exited = None, widgets = Map.empty \<rparr>"

text \<open>
  What triggers a render pass: nothing (first load, or a rerun the script asked for), the
  submit button of form \<open>i\<close> with the text of its input box, or the exit button.
\<close>

datatype action = No_action | Submit nat string | Click_exit

fun submitted :: "action \<Rightarrow> nat \<Rightarrow> bool" where
  "submitted (Submit j text) i = (j = i)"
| "submitted a i = False"

fun user_input_of :: "action \<Rightarrow> nat \<Rightarrow> string" where
  "user_input_of (Submit j text) i = (if j = i then text else [])"
| "user_input_of a i = []"

text \<open>
  How a pass ends: at the end of the script, by \<open>st.rerun()\<close>, by \<open>st.stop()\<close>, or by an
  exception that leaves the script.
\<close>

datatype control = Finished | Rerun | Stopped | Crashed exn

text \<open>Lines 159 to 177, the body of \<open>if submitted and user_input\<close> up to \<open>st.rerun()\<close>.\<close>

definition submit_turn ::
  "env \<Rightarrow> turn list \<Rightarrow> session_state \<Rightarrow> string \<Rightarrow> session_state \<times> event list"
where
  "submit_turn env ms ss user_input =
     (let user_turn = \<lparr> role = ''user'', content = user_input \<rparr>;
          ms1 = ms @ [user_turn]
      in case pipeline env user_input of
           (response_text, tr) \<Rightarrow>
             (let assistant_turn = \<lparr> role = ''assistant'', content = response_text \<rparr>;
                  ms2 = ms1 @ [assistant_turn]
              in (ss\<lparr> messages := Some ms2 \<rparr>,
                  [Appended user_turn] @ tr @
                  [Shown (Live_answer response_text), Appended assistant_turn])))"

text \<open>
  The conversation loop, \<open>for i in range(len(st.session_state.messages) // 2 + 1)\<close>, over
  the indices still to visit (the range is computed once, before the first iteration).
\<close>

fun conversation_loop ::
  "env \<Rightarrow> action \<Rightarrow> nat list \<Rightarrow> session_state \<Rightarrow> session_state \<times> control \<times> event list"
where
  "conversation_loop env act [] ss = (ss, Finished, [])"
| "conversation_loop env act (i # rest) ss =
     (case messages ss of
        None \<Rightarrow> (ss, Crashed AttributeError, [])
      | Some ms \<Rightarrow>
          (let is_last_input = (i = length ms div 2);
               form = Shown (Chat_form i) #
                      (if is_last_input then [Shown (Autofocus_script i)] else [])
           in if submitted act i \<and> user_input_of act i \<noteq> [] then
                (case submit_turn env ms ss (user_input_of act i) of
                   (ss', tr) \<Rightarrow> (ss', Rerun, form @ tr))
              else
                (let idx = i * 2;
                     shown_user =
                       (if idx < length ms
                        then [Shown (User_message (content (ms ! idx)))] else []);
                     shown_assistant =
                       (if idx + 1 < length ms
                        then [Shown (Assistant_message
                                       (int i = int (length ms div 2) - 1)
                                       (content (ms ! (idx + 1))))]
                        else [])
                 in case conversation_loop env act rest ss of
                      (ss', c, tr) \<Rightarrow> (ss', c, form @ shown_user @ shown_assistant @ tr))))"

text \<open>
  One render pass: the script from the exit state handler (line 115) to its end, run
  without interruption. The environment setup above it renders nothing and touches no
  session state. \<open>ms\<close> is \<open>st.session_state.messages\<close> after the initialisation
  \<open>if "messages" not in st.session_state: st.session_state.messages = []\<close>, and \<open>ss1\<close>
  the session state then.
\<close>

definition run_script ::
  "env \<Rightarrow> action \<Rightarrow> session_state \<Rightarrow> session_state \<times> control \<times> event list"
where
  "run_script env act ss =
     (if exited ss = Some True then (ss, Stopped, [Shown Closing_message])
      else
        (let ms = (case messages ss of None \<Rightarrow> [] | Some m \<Rightarrow> m);
             ss1 = ss\<lparr> messages := Some ms \<rparr>;
             top = [Shown Page_title, Shown Intro]
         in case conversation_loop env act [0..<length ms div 2 + 1] ss1 of
              (ss2, c, tr) \<Rightarrow>
                (if c \<noteq> Finished then (ss2, c, top @ tr)
                 else if act = Click_exit then
                   (\<lparr> messages = None, exited = Some True, widgets = Map.empty \<rparr>,
                    Rerun, top @ tr @ [Shown Exit_button])
                 else
                   (ss2, Finished,
                    top @ tr @ [Shown Exit_button, Shown Auto_scroll_script, Shown Footer]))))"

text \<open>
  A sequence of render passes, each with its own trigger and its own behaviour of the
  external services: the final session state and what each pass rendered.
\<close>

fun run_passes ::
  "(env \<times> action) list \<Rightarrow> session_state \<Rightarrow> session_state \<times> event list list"
where
  "run_passes [] ss = (ss, [])"
| "run_passes ((env, act) # rest) ss =
     (case run_script env act ss of
        (ss', c, tr) \<Rightarrow>
          (case run_passes rest ss' of (ss'', trs) \<Rightarrow> (ss'', tr # trs)))"

text \<open>
  The session states a session can be in between passes: a new session starts empty, the
  script runs on any trigger with any behaviour of the services, and the framework stores
  widget values.
\<close>

inductive reachable :: "session_state \<Rightarrow> bool" where
  reachable_new: "reachable new_session"
| reachable_pass:
    "reachable ss \<Longrightarrow> run_script env act ss = (ss', c, tr) \<Longrightarrow> reachable ss'"
| reachable_widget: "reachable ss \<Longrightarrow> reachable (ss\<lparr> widgets := w \<rparr>)"

text \<open>
  A history at rest between passes: pairs of a user turn and the assistant turn that
  answers it.
\<close>

fun turns_alternate :: "turn list \<Rightarrow> bool" where
  "turns_alternate [] = True"
| "turns_alternate [u] = False"
| "turns_alternate (u # a # rest) =
     (role u = ''user'' \<and> role a = ''assistant'' \<and> turns_alternate rest)"

definition rest_ok :: "session_state \<Rightarrow> bool" where
  "rest_ok ss = (case messages ss of None \<Rightarrow> True | Some ms \<Rightarrow> turns_alternate ms)"

text \<open>The session state the exit button leaves behind.\<close>

definition exit_state :: session_state where
  "exit_state = \<lparr> messages = None, exited = Some True, widgets = Map.empty \<rparr>"

section \<open>Example inputs\<close>

definition example_doc :: doc where
  "example_doc =
     [''product_name'' \<mapsto> PyStr ''Serum A'', ''description'' \<mapsto> PyStr ''Vitamin C'',
      ''product_image_link'' \<mapsto> PyStr ''url1'']"

definition example_chunks :: "chunk list" where
  "example_chunks =
     [Chunk [Choice (Some (Delta (Some ''Serum '')))],
      Chunk [Choice (Some (Delta None))],
      Chunk [Choice (Some (Delta (Some ''A'')))]]"

text \<open>Every service answers; the stream delivers three chunks, the second without content.\<close>

definition env_ok :: env where
  "env_ok =
     \<lparr> embed_content =
         (\<lambda>text. Inr (EmbedResponse (Some [ContentEmbedding (Some [PyFloat 1 0])]))),
       qdrant_search = (\<lambda>v. Inr [ScoredPoint example_doc]),
       completions_create = (\<lambda>prompt. Inr (example_chunks, None)),
       repr_docs = (\<lambda>docs. ''[...]'') \<rparr>"

text \<open>The stream delivers one chunk, then the connection fails.\<close>

definition env_broken_stream :: env where
  "env_broken_stream =
     env_ok \<lparr> completions_create :=
       (\<lambda>prompt. Inr ([Chunk [Choice (Some (Delta (Some ''Serum '')))]],
                      Some (ServiceError ''connection lost''))) \<rparr>"

text \<open>The embedding service raises.\<close>

definition env_embedding_down :: env where
  "env_embedding_down =
     env_ok \<lparr> embed_content := (\<lambda>text. Inl (ServiceError ''unavailable'')) \<rparr>"

text \<open>A session with one answered turn and a stored widget value.\<close>

definition example_session :: session_state where
  "example_session =
     \<lparr> messages = Some [\<lparr> role = ''user'', content = ''serum'' \<rparr>,
                        \<lparr> role = ''assistant'', content = ''Serum A'' \<rparr>],
       exited = None,
       widgets = [''input_0'' \<mapsto> []] \<rparr>"

text \<open>The embedding service answers with an empty vector.\<close>

definition env_empty_vector :: env where
  "env_empty_vector =
     env_ok \<lparr> embed_content :=
       (\<lambda>text. Inr (EmbedResponse (Some [ContentEmbedding (Some [])]))) \<rparr>"

section \<open>Properties of the Context Formatter\<close>

lemma str_join_cons:
  "str_join sep (x # xs) = x @ concat (map (\<lambda>y. sep @ y) xs)"
  by (induction xs arbitrary: x) simp_all

lemma format_line_spec: "format_line d = spec_line (doc_fields d)"
  by (simp add: format_line_def spec_line_def doc_fields_def dict_get_def or_fallback_def
      split: option.splits)

lemma spec_format_eq:
  "spec_format (map doc_fields docs) = str_join newline (map format_line docs)"
  by (cases docs) (simp_all add: spec_format_def str_join_cons format_line_spec comp_def)

text \<open>
  C4: for every list of records, \<open>format_context\<close> renders each record as the line
  \<open>- <name>, <description> (Gambar: <image reference>)\<close>, with \<open>Tanpa Nama\<close> for a missing
  name, the empty string for a missing description and \<open>-\<close> for a missing image; the
  lines are joined by newlines in insertion order, and the empty list gives the empty
  string. The right-hand side is the formatter as the specification words it
  (\<open>spec_format\<close>, \<open>spec_line\<close>), applied to the three fields of each payload.
\<close>

theorem format_context_lines:
  "format_context docs = spec_format (map doc_fields docs) \<and> format_context [] = []"
  by (simp add: spec_format_eq format_context_def)

theorem format_context_lines_witness:
  "format_context
     [[''product_name'' \<mapsto> PyStr ''Serum A'', ''description'' \<mapsto> PyStr ''Vitamin C'',
       ''product_image_link'' \<mapsto> PyStr ''url1''],
      [''description'' \<mapsto> PyStr ''Niacinamide'']]
   = ''- Serum A, Vitamin C (Gambar: url1)'' @ [CHR 0x0A] @
     ''- Tanpa Nama, Niacinamide (Gambar: -)''"
  using format_context_lines
    [of "[[''product_name'' \<mapsto> PyStr ''Serum A'', ''description'' \<mapsto> PyStr ''Vitamin C'',
           ''product_image_link'' \<mapsto> PyStr ''url1''],
          [''description'' \<mapsto> PyStr ''Niacinamide'']]"]
  by (simp add: spec_format_def spec_line_def doc_fields_def or_fallback_def newline_def)

text \<open>
  C8: two calls of \<open>format_context\<close> on the same record list give the same output. The
  formatter takes the list and nothing else (no service, no session state) and has no
  effect; its output is fixed already by the three fields it reads from each record, so
  it is the same for any two lists that agree on those, in particular for the same list
  given twice.
\<close>

theorem format_context_deterministic:
  "map doc_fields docs' = map doc_fields docs \<Longrightarrow> format_context docs' = format_context docs"
  by (metis format_context_def spec_format_eq)

theorem format_context_deterministic_witness:
  "format_context [example_doc] = format_context [example_doc] \<and>
   format_context [example_doc(''price'' \<mapsto> PyOther ''12.5'')] = format_context [example_doc]"
proof -
  have same: "map doc_fields [example_doc] = map doc_fields [example_doc]"
    by simp
  have fields:
    "map doc_fields [example_doc(''price'' \<mapsto> PyOther ''12.5'')] = map doc_fields [example_doc]"
    by (simp add: doc_fields_def)
  from format_context_deterministic [OF same] format_context_deterministic [OF fields]
  show ?thesis by simp
qed

section \<open>Properties of retrieval\<close>

lemma embed_text_no_search: "filter is_search_request (snd (embed_text env query)) = []"
  by (simp add: embed_text_def split: sum.splits)

lemma embed_text_down:
  "embed_text env_embedding_down ''serum'' =
     (Inr None,
      [Embed_request ''serum'', Raised (ServiceError ''unavailable''),
       Error_box Embedding_failed ''unavailable''])"
  by (simp add: embed_text_def env_embedding_down_def)

text \<open>
  C5: whenever the Embedding Client fails, that is \<open>embed_text\<close> returns no vector,
  \<open>retrieve_documents\<close> returns the empty list and its effects are those of
  \<open>embed_text\<close> alone: no request goes to the vector index.
\<close>

theorem retrieve_documents_embedding_failed:
  assumes "embed_text env query = (Inr None, tr)"
  shows "retrieve_documents env query = (Inr [], tr) \<and> filter is_search_request tr = []"
  using assms embed_text_no_search [of env query] by (simp add: retrieve_documents_def)

theorem retrieve_documents_embedding_failed_witness:
  "retrieve_documents env_embedding_down ''serum'' =
     (Inr [],
      [Embed_request ''serum'', Raised (ServiceError ''unavailable''),
       Error_box Embedding_failed ''unavailable'']) \<and>
   filter is_search_request
     [Embed_request ''serum'', Raised (ServiceError ''unavailable''),
      Error_box Embedding_failed ''unavailable''] = []"
  using retrieve_documents_embedding_failed [OF embed_text_down] by simp

text \<open>
  C9: when the embedding call succeeds with an empty vector, \<open>retrieve_documents\<close>
  returns the empty list after the embedding request alone, without a request to the
  vector index; what it returns is what it returns when the embedding fails.
\<close>

theorem retrieve_documents_empty_vector:
  assumes "embed_content env query =
             Inr (EmbedResponse (Some (ContentEmbedding (Some []) # others)))"
  shows "retrieve_documents env query = (Inr [], [Embed_request query]) \<and>
         (\<forall>env' tr'. embed_text env' query = (Inr None, tr') \<longrightarrow>
            fst (retrieve_documents env' query) = fst (retrieve_documents env query))"
  using assms by (simp add: retrieve_documents_def embed_text_def first_values_def)

theorem retrieve_documents_empty_vector_witness:
  "retrieve_documents env_empty_vector ''serum'' = (Inr [], [Embed_request ''serum'']) \<and>
   fst (retrieve_documents env_embedding_down ''serum'') =
     fst (retrieve_documents env_empty_vector ''serum'')"
proof -
  have a: "embed_content env_empty_vector ''serum'' =
             Inr (EmbedResponse (Some (ContentEmbedding (Some []) # [])))"
    by (simp add: env_empty_vector_def)
  from retrieve_documents_empty_vector [OF a] embed_text_down show ?thesis by simp
qed

section \<open>Properties of the Answer Generator\<close>

text \<open>
  C3: for an empty records list the generator yields the one fixed fragment and returns;
  its effects are empty, so no completion request is made.
\<close>

theorem generate_answer_empty:
  "generate_answer env query [] =
     ([''Maaf, saya tidak menemukan informasi relevan.''], None, [])"
  by (simp add: generate_answer_def not_found_fragment_def)

lemma chunk_content_has_delta:
  "has_delta c \<Longrightarrow> chunk_content c = Inr (case raw_content c of None \<Rightarrow> [] | Some s \<Rightarrow> s)"
  by (auto simp: has_delta_def chunk_content_def raw_content_def or_empty_def
      split: list.splits option.splits)

lemma chunk_content_no_delta: "\<not> has_delta c \<Longrightarrow> \<exists>e. chunk_content c = Inl e"
  by (auto simp: has_delta_def chunk_content_def split: list.splits option.splits)

lemma stream_loop_fragments:
  "fst (stream_loop r chunks fin) =
     map (\<lambda>c. case raw_content c of None \<Rightarrow> [] | Some s \<Rightarrow> s) (takeWhile has_delta chunks)"
proof (induction chunks arbitrary: r)
  case Nil
  then show ?case by (cases fin) simp_all
next
  case (Cons c chunks)
  show ?case
  proof (cases "has_delta c")
    case True
    then show ?thesis
      using Cons [of "r @ (case raw_content c of None \<Rightarrow> [] | Some s \<Rightarrow> s)"]
      by (simp add: chunk_content_has_delta case_prod_beta)
  next
    case False
    then show ?thesis using chunk_content_no_delta [OF False] by auto
  qed
qed

lemma stream_loop_end:
  "list_all has_delta chunks \<Longrightarrow> fst (snd (snd (stream_loop r chunks fin))) = fin"
proof (induction chunks arbitrary: r)
  case Nil
  then show ?case by (cases fin) simp_all
next
  case (Cons c chunks)
  then show ?case
    using Cons.IH [of "r @ (case raw_content c of None \<Rightarrow> [] | Some s \<Rightarrow> s)"]
    by (simp add: chunk_content_has_delta case_prod_beta)
qed

text \<open>The local \<open>response\<close> of the generator is the concatenation of what it yielded.\<close>

lemma stream_loop_response:
  "fst (snd (stream_loop r chunks fin)) = r @ concat (fst (stream_loop r chunks fin))"
proof (induction chunks arbitrary: r)
  case Nil
  then show ?case by (cases fin) simp_all
next
  case (Cons c chunks)
  show ?case
  proof (cases "chunk_content c")
    case (Inl e)
    then show ?thesis by simp
  next
    case (Inr s)
    then show ?thesis using Cons [of "r @ s"] by (simp add: case_prod_beta)
  qed
qed

text \<open>
  The generator ends without an exception exactly when the completion request returns
  a stream, every chunk of it has \<open>choices[0].delta\<close>, and the stream ends normally.
\<close>

lemma stream_loop_clean_end:
  "(fst (snd (snd (stream_loop r chunks fin))) = None) =
     (fin = None \<and> list_all has_delta chunks)"
proof (induction chunks arbitrary: r)
  case Nil
  then show ?case by (cases fin) simp_all
next
  case (Cons c chunks)
  show ?case
  proof (cases "has_delta c")
    case True
    then show ?thesis
      using Cons [of "r @ (case raw_content c of None \<Rightarrow> [] | Some s \<Rightarrow> s)"]
      by (simp add: chunk_content_has_delta case_prod_beta)
  next
    case False
    then show ?thesis using chunk_content_no_delta [OF False] by auto
  qed
qed

lemma generate_answer_clean_end:
  assumes "docs \<noteq> []"
  shows "(fst (snd (generate_answer env q docs)) = None) =
         (\<exists>chunks. completions_create env (build_prompt (repr_docs env docs) q) =
                     Inr (chunks, None) \<and>
                   list_all has_delta chunks)"
proof (cases "completions_create env (build_prompt (repr_docs env docs) q)")
  case (Inl e)
  with assms show ?thesis by (simp add: generate_answer_def)
next
  case (Inr st)
  obtain chunks fin where st: "st = (chunks, fin)" by (cases st)
  have "fst (snd (generate_answer env q docs)) = fst (snd (snd (stream_loop [] chunks fin)))"
    using assms Inr st by (simp add: generate_answer_def case_prod_beta)
  then show ?thesis using Inr st by (auto simp: stream_loop_clean_end)
qed

text \<open>
  C10: on the non-empty-records path every fragment the generator yields is a string, one
  for each chunk read: the chunk's content, or the empty string when the content is
  absent. An absent content neither fails nor ends the stream: the generator fails only
  on a chunk without \<open>choices[0].delta\<close> or when the stream itself raises, so with all
  chunks well formed it ends as the stream ends.
\<close>

theorem generate_answer_fragments:
  assumes "docs \<noteq> []"
    and "completions_create env (build_prompt (repr_docs env docs) query) = Inr (chunks, fin)"
  shows "fst (generate_answer env query docs) =
           map (\<lambda>c. case raw_content c of None \<Rightarrow> [] | Some s \<Rightarrow> s)
             (takeWhile has_delta chunks) \<and>
         (list_all has_delta chunks \<longrightarrow> fst (snd (generate_answer env query docs)) = fin) \<and>
         (\<forall>c. has_delta c \<and> raw_content c = None \<longrightarrow> chunk_content c = Inr [])"
proof -
  have "fst (generate_answer env query docs) = fst (stream_loop [] chunks fin)"
    using assms by (simp add: generate_answer_def case_prod_beta)
  moreover have "fst (snd (generate_answer env query docs)) =
      fst (snd (snd (stream_loop [] chunks fin)))"
    using assms by (simp add: generate_answer_def case_prod_beta)
  ultimately show ?thesis
    by (simp add: stream_loop_fragments stream_loop_end chunk_content_has_delta)
qed

theorem generate_answer_fragments_witness:
  "fst (generate_answer env_ok ''serum'' [example_doc]) = [''Serum '', [], ''A''] \<and>
   fst (snd (generate_answer env_ok ''serum'' [example_doc])) = None \<and>
   chunk_content (Chunk [Choice (Some (Delta None))]) = Inr []"
proof -
  have a: "[example_doc] \<noteq> []" by simp
  have b: "completions_create env_ok (build_prompt (repr_docs env_ok [example_doc]) ''serum'') =
             Inr (example_chunks, None)"
    by (simp add: env_ok_def)
  have c: "list_all has_delta example_chunks"
    by (simp add: example_chunks_def has_delta_def)
  have d: "has_delta (Chunk [Choice (Some (Delta None))]) \<and>
           raw_content (Chunk [Choice (Some (Delta None))]) = None"
    by (simp add: has_delta_def raw_content_def)
  from generate_answer_fragments [OF a b] c d show ?thesis
    by (simp add: example_chunks_def has_delta_def raw_content_def)
qed

section \<open>Properties of the per-turn pipeline\<close>

lemma foldl_append_concat: "foldl (@) a ys = a @ concat ys"
  by (induction ys arbitrary: a) simp_all

lemma fragments_equal: "not_found_fragment = fallback_response"
  by (simp add: not_found_fragment_def fallback_response_def)

lemma retrieve_documents_quiet:
  "retrieve_documents env q = (Inr docs, tr) \<Longrightarrow> docs \<noteq> [] \<Longrightarrow> \<not> list_ex is_raised tr"
  by (auto simp: retrieve_documents_def embed_text_def
      split: sum.splits option.splits list.splits if_splits prod.splits)

lemma stream_loop_quiet: "stream_loop r chunks fin = (ys, r', None, tr) \<Longrightarrow> tr = []"
proof (induction chunks arbitrary: r ys)
  case Nil
  then show ?case by (cases fin) simp_all
next
  case (Cons c chunks)
  then show ?case by (auto split: sum.splits prod.splits)
qed

lemma generate_answer_quiet:
  "generate_answer env q docs = (ys, None, tr) \<Longrightarrow> \<not> list_ex is_raised tr"
  by (auto simp: generate_answer_def Let_def dest: stream_loop_quiet
      split: if_splits sum.splits prod.splits)

lemma pipeline_cases:
  assumes raised: "list_ex is_raised (snd (pipeline env q))"
  shows "fst (pipeline env q) = fallback_response"
proof -
  obtain res tr where r: "retrieve_documents env q = (res, tr)"
    by (cases "retrieve_documents env q")
  show ?thesis
  proof (cases res)
    case (Inl e)
    with r show ?thesis by (simp add: pipeline_def)
  next
    case (Inr docs)
    obtain ys fin tr' where g: "generate_answer env q docs = (ys, fin, tr')"
      by (cases "generate_answer env q docs") auto
    show ?thesis
    proof (cases fin)
      case (Some e)
      with r Inr g show ?thesis by (simp add: pipeline_def)
    next
      case None
      show ?thesis
      proof (cases "docs = []")
        case True
        with r Inr show ?thesis
          by (simp add: pipeline_def generate_answer_def fragments_equal)
      next
        case False
        from retrieve_documents_quiet [of env q docs tr] r Inr False
        have "\<not> list_ex is_raised tr" by simp
        moreover from generate_answer_quiet [of env q docs ys tr'] g None
        have "\<not> list_ex is_raised tr'" by simp
        ultimately show ?thesis using raised r Inr g None by (simp add: pipeline_def)
      qed
    qed
  qed
qed

lemma submit_turn_messages:
  "messages (fst (submit_turn env ms ss text)) =
     Some (ms @ [\<lparr> role = ''user'', content = text \<rparr>,
                 \<lparr> role = ''assistant'', content = fst (pipeline env text) \<rparr>])"
  by (simp add: submit_turn_def Let_def case_prod_beta)

lemma pipeline_completed:
  assumes "retrieve_documents env q = (Inr docs, tr)"
    and "generate_answer env q docs = (ys, None, tr')"
  shows "pipeline env q = (concat ys, tr @ tr')"
  using assms by (simp add: pipeline_def foldl_append_concat)

lemma retrieve_ok:
  "retrieve_documents env_ok ''serum'' =
     (Inr [example_doc], [Embed_request ''serum'', Search_request [PyFloat 1 0]])"
  by (simp add: retrieve_documents_def embed_text_def env_ok_def first_values_def)

lemma generate_ok:
  "generate_answer env_ok ''serum'' [example_doc] =
     ([''Serum '', [], ''A''], None, [Completion_request (build_prompt ''[...]'' ''serum'')])"
  by (simp add: generate_answer_def env_ok_def example_chunks_def chunk_content_def
      or_empty_def)

lemma retrieve_broken:
  "retrieve_documents env_broken_stream ''serum'' =
     (Inr [example_doc], [Embed_request ''serum'', Search_request [PyFloat 1 0]])"
  by (simp add: retrieve_documents_def embed_text_def env_ok_def env_broken_stream_def
      first_values_def)

lemma generate_broken:
  "generate_answer env_broken_stream ''serum'' [example_doc] =
     ([''Serum ''], Some (ServiceError ''connection lost''),
      [Completion_request (build_prompt ''[...]'' ''serum''),
       Raised (ServiceError ''connection lost'')])"
  by (simp add: generate_answer_def env_ok_def env_broken_stream_def chunk_content_def
      or_empty_def)

lemma pipeline_broken:
  "pipeline env_broken_stream ''serum'' =
     (fallback_response,
      [Embed_request ''serum'', Search_request [PyFloat 1 0],
       Completion_request (build_prompt ''[...]'' ''serum''),
       Raised (ServiceError ''connection lost'')])"
  unfolding pipeline_def retrieve_broken by (simp add: generate_broken)

text \<open>
  C2: if an exception is raised anywhere in the per-turn pipeline (in embedding,
  retrieval, prompting or streaming), \<open>response_text\<close> is exactly the fixed apology, and
  so is the content of the assistant turn that is stored: nothing of what was streamed
  before the exception is kept.
\<close>

theorem pipeline_exception_gives_apology:
  assumes "list_ex is_raised (snd (pipeline env user_input))"
  shows "fst (pipeline env user_input) = ''Maaf, saya tidak menemukan informasi relevan.'' \<and>
         messages (fst (submit_turn env ms ss user_input)) =
           Some (ms @ [\<lparr> role = ''user'', content = user_input \<rparr>,
                       \<lparr> role = ''assistant'',
                         content = ''Maaf, saya tidak menemukan informasi relevan.'' \<rparr>])"
  using pipeline_cases [OF assms] by (simp add: submit_turn_messages fallback_response_def)

theorem pipeline_exception_gives_apology_witness:
  "fst (generate_answer env_broken_stream ''serum'' [example_doc]) = [''Serum ''] \<and>
   fst (pipeline env_broken_stream ''serum'') =
     ''Maaf, saya tidak menemukan informasi relevan.'' \<and>
   messages (fst (submit_turn env_broken_stream [] new_session ''serum'')) =
     Some [\<lparr> role = ''user'', content = ''serum'' \<rparr>,
           \<lparr> role = ''assistant'',
             content = ''Maaf, saya tidak menemukan informasi relevan.'' \<rparr>]"
proof -
  have raised: "list_ex is_raised (snd (pipeline env_broken_stream ''serum''))"
    by (simp add: pipeline_broken)
  from pipeline_exception_gives_apology [OF raised, of "[]" new_session]
  show ?thesis by (simp add: generate_broken)
qed

text \<open>
  C7, as the code has it: for a non-empty records list, when the Answer Generator runs
  to its end without raising an exception, the answer stored for the turn is the
  concatenation, in arrival order, of all fragments the generator yielded. The generator
  ends so exactly when the completion request returned a stream, every chunk of the
  stream had \<open>choices[0].delta\<close> and the stream ended normally; the fragments are then
  one per chunk of the stream, its content or the empty string.
\<close>

theorem stored_answer_is_concatenation:
  assumes "retrieve_documents env q = (Inr docs, tr)"
    and "docs \<noteq> []"
    and "generate_answer env q docs = (ys, None, tr')"
  shows "fst (pipeline env q) = concat ys \<and>
         messages (fst (submit_turn env ms ss q)) =
           Some (ms @ [\<lparr> role = ''user'', content = q \<rparr>,
                       \<lparr> role = ''assistant'', content = concat ys \<rparr>]) \<and>
         (\<exists>chunks. completions_create env (build_prompt (repr_docs env docs) q) =
                     Inr (chunks, None) \<and>
                   list_all has_delta chunks \<and>
                   ys = map (\<lambda>c. case raw_content c of None \<Rightarrow> [] | Some s \<Rightarrow> s) chunks)"
proof -
  from assms(3) have "fst (snd (generate_answer env q docs)) = None" by simp
  with generate_answer_clean_end [OF assms(2), of env q]
  obtain chunks where c:
    "completions_create env (build_prompt (repr_docs env docs) q) = Inr (chunks, None)"
    "list_all has_delta chunks"
    by blast
  have "fst (generate_answer env q docs) = fst (stream_loop [] chunks None)"
    using assms(2) c(1) by (simp add: generate_answer_def case_prod_beta)
  with assms(3) c(2)
  have "ys = map (\<lambda>c. case raw_content c of None \<Rightarrow> [] | Some s \<Rightarrow> s) chunks"
    by (simp add: stream_loop_fragments list_all_iff takeWhile_eq_all_conv [THEN iffD2])
  with c pipeline_completed [OF assms(1) assms(3)] show ?thesis
    by (auto simp: submit_turn_messages)
qed

theorem stored_answer_is_concatenation_witness:
  "fst (pipeline env_ok ''serum'') = ''Serum A'' \<and>
   messages (fst (submit_turn env_ok [] new_session ''serum'')) =
     Some [\<lparr> role = ''user'', content = ''serum'' \<rparr>,
           \<lparr> role = ''assistant'', content = ''Serum A'' \<rparr>]"
proof -
  have nonempty: "[example_doc] \<noteq> []" by simp
  from stored_answer_is_concatenation [OF retrieve_ok nonempty generate_ok, of "[]" new_session]
  show ?thesis by simp
qed

text \<open>
  C7 as stated fails when the generator ends in an exception: with one record retrieved
  and a stream that delivers \<open>Serum \<close> and then raises, the generator has yielded
  \<open>Serum \<close>, and the answer stored is the apology.
\<close>

theorem stored_answer_counterexample:
  "fst (retrieve_documents env_broken_stream ''serum'') = Inr [example_doc] \<and>
   fst (generate_answer env_broken_stream ''serum'' [example_doc]) = [''Serum ''] \<and>
   fst (pipeline env_broken_stream ''serum'') \<noteq>
     concat (fst (generate_answer env_broken_stream ''serum'' [example_doc]))"
  by (simp add: pipeline_broken retrieve_broken generate_broken fallback_response_def)

section \<open>Properties of the Conversation Controller\<close>

lemma turns_alternate_append:
  "turns_alternate (ms @ [u, a]) = (turns_alternate ms \<and> role u = ''user'' \<and> role a = ''assistant'')"
  by (induction ms rule: turns_alternate.induct) auto

lemma turns_alternate_index:
  "turns_alternate ms \<Longrightarrow>
     even (length ms) \<and> (\<forall>k<length ms. role (ms ! k) = (if even k then ''user'' else ''assistant''))"
proof (induction ms rule: turns_alternate.induct)
  case 1
  then show ?case by simp
next
  case (2 u)
  then show ?case by simp
next
  case (3 u a rest)
  then have ih: "even (length rest)"
    "\<And>k. k < length rest \<Longrightarrow> role (rest ! k) = (if even k then ''user'' else ''assistant'')"
    and u: "role u = ''user''" and a: "role a = ''assistant''"
    by simp_all
  have "role ((u # a # rest) ! k) = (if even k then ''user'' else ''assistant'')"
    if "k < length (u # a # rest)" for k
  proof (cases k)
    case 0
    with u show ?thesis by simp
  next
    case (Suc j)
    show ?thesis
    proof (cases j)
      case 0
      with Suc a show ?thesis by simp
    next
      case (Suc i)
      with \<open>k = Suc j\<close> that have "i < length rest" by simp
      from ih(2) [OF this] Suc \<open>k = Suc j\<close> show ?thesis by simp
    qed
  qed
  with ih(1) show ?case by simp
qed

lemma embed_text_no_append: "filter is_appended (snd (embed_text env q)) = []"
  by (simp add: embed_text_def split: sum.splits)

lemma retrieve_documents_no_append: "filter is_appended (snd (retrieve_documents env q)) = []"
  using embed_text_no_append [of env q]
  by (cases "embed_text env q")
     (auto simp: retrieve_documents_def split: sum.splits option.splits list.splits)

lemma stream_loop_no_append:
  "filter is_appended (snd (snd (snd (stream_loop r chunks fin)))) = []"
proof (induction chunks arbitrary: r)
  case Nil
  then show ?case by (cases fin) simp_all
next
  case (Cons c chunks)
  show ?case
  proof (cases "chunk_content c")
    case (Inl e)
    then show ?thesis by simp
  next
    case (Inr s)
    then show ?thesis using Cons [of "r @ s"] by (simp add: case_prod_beta)
  qed
qed

lemma generate_answer_no_append:
  "filter is_appended (snd (snd (generate_answer env q docs))) = []"
  using stream_loop_no_append
  by (auto simp: generate_answer_def Let_def case_prod_beta split: sum.splits)

lemma pipeline_no_append: "filter is_appended (snd (pipeline env q)) = []"
proof -
  obtain res tr where r: "retrieve_documents env q = (res, tr)"
    by (cases "retrieve_documents env q")
  with retrieve_documents_no_append [of env q] have tr: "filter is_appended tr = []" by simp
  show ?thesis
  proof (cases res)
    case (Inl e)
    with r tr show ?thesis by (simp add: pipeline_def)
  next
    case (Inr docs)
    obtain ys fin tr' where g: "generate_answer env q docs = (ys, fin, tr')"
      by (cases "generate_answer env q docs") auto
    with generate_answer_no_append [of env q docs] have "filter is_appended tr' = []" by simp
    with r tr Inr g show ?thesis by (cases fin) (simp_all add: pipeline_def)
  qed
qed

lemma submit_turn_eq:
  "submit_turn env ms ss text =
     (ss\<lparr> messages := Some (ms @ [\<lparr> role = ''user'', content = text \<rparr>,
                                   \<lparr> role = ''assistant'', content = fst (pipeline env text) \<rparr>]) \<rparr>,
      [Appended \<lparr> role = ''user'', content = text \<rparr>] @ snd (pipeline env text) @
      [Shown (Live_answer (fst (pipeline env text))),
       Appended \<lparr> role = ''assistant'', content = fst (pipeline env text) \<rparr>])"
  by (simp add: submit_turn_def Let_def case_prod_beta)

lemma conversation_loop_idle:
  assumes "messages ss = Some ms" and "\<And>i text. act \<noteq> Submit i text"
  shows "\<exists>tr. conversation_loop env act is ss = (ss, Finished, tr)"
  using assms
proof (induction "is")
  case Nil
  then show ?case by simp
next
  case (Cons i rest)
  then obtain tr where "conversation_loop env act rest ss = (ss, Finished, tr)" by blast
  moreover have "\<not> submitted act i" using Cons.prems(2) by (cases act) auto
  ultimately show ?case using Cons.prems(1) by (simp add: Let_def)
qed

lemma conversation_loop_submit:
  assumes "messages ss = Some ms" and "text \<noteq> []" and "i \<in> set is"
  shows "\<exists>pre. conversation_loop env (Submit i text) is ss =
           (fst (submit_turn env ms ss text), Rerun, pre @ snd (submit_turn env ms ss text)) \<and>
           filter is_appended pre = []"
  using assms
proof (induction "is")
  case Nil
  then show ?case by simp
next
  case (Cons j rest)
  show ?case
  proof (cases "j = i")
    case True
    have "conversation_loop env (Submit i text) (j # rest) ss =
            (fst (submit_turn env ms ss text), Rerun,
             (Shown (Chat_form j) # (if j = length ms div 2 then [Shown (Autofocus_script j)] else []))
               @ snd (submit_turn env ms ss text))"
      using True Cons.prems(1,2) by (simp add: Let_def case_prod_beta)
    moreover have "filter is_appended
        (Shown (Chat_form j) # (if j = length ms div 2 then [Shown (Autofocus_script j)] else [])) = []"
      by simp
    ultimately show ?thesis by blast
  next
    case False
    with Cons.prems have "i \<in> set rest" by simp
    from Cons.IH [OF Cons.prems(1,2) this] obtain pre where
      pre: "conversation_loop env (Submit i text) rest ss =
              (fst (submit_turn env ms ss text), Rerun, pre @ snd (submit_turn env ms ss text))"
        "filter is_appended pre = []"
      by blast
    define shown where "shown =
       Shown (Chat_form j) # (if j = length ms div 2 then [Shown (Autofocus_script j)] else []) @
       (if j * 2 < length ms then [Shown (User_message (content (ms ! (j * 2))))] else []) @
       (if j * 2 + 1 < length ms
        then [Shown (Assistant_message (int j = int (length ms div 2) - 1)
                       (content (ms ! (j * 2 + 1))))]
        else [])"
    have "conversation_loop env (Submit i text) (j # rest) ss =
            (fst (submit_turn env ms ss text), Rerun,
             (shown @ pre) @ snd (submit_turn env ms ss text))"
      using False Cons.prems(1) pre(1) by (simp add: Let_def shown_def)
    moreover have "filter is_appended (shown @ pre) = []"
      using pre(2) by (simp add: shown_def)
    ultimately show ?thesis by blast
  qed
qed

lemma conversation_loop_cases:
  assumes "messages ss = Some ms"
  shows "(\<exists>tr. conversation_loop env act is ss = (ss, Finished, tr)) \<or>
         (\<exists>text tr. conversation_loop env act is ss = (fst (submit_turn env ms ss text), Rerun, tr))"
proof (induction "is")
  case Nil
  then show ?case by simp
next
  case (Cons j rest)
  show ?case
  proof (cases "submitted act j \<and> user_input_of act j \<noteq> []")
    case True
    then show ?thesis using assms by (simp add: Let_def case_prod_beta) blast
  next
    case False
    from Cons show ?thesis
    proof
      assume "\<exists>tr. conversation_loop env act rest ss = (ss, Finished, tr)"
      then obtain tr where "conversation_loop env act rest ss = (ss, Finished, tr)" ..
      then show ?thesis using False assms by (auto simp: Let_def)
    next
      assume "\<exists>text tr. conversation_loop env act rest ss =
                (fst (submit_turn env ms ss text), Rerun, tr)"
      then obtain inp tr where "conversation_loop env act rest ss =
                (fst (submit_turn env ms ss inp), Rerun, tr)" by blast
      then show ?thesis using False assms by (auto simp: Let_def)
    qed
  qed
qed

lemma run_script_exited:
  "exited ss = Some True \<Longrightarrow> run_script env act ss = (ss, Stopped, [Shown Closing_message])"
  by (simp add: run_script_def)

lemma run_passes_exited:
  "exited ss = Some True \<Longrightarrow>
     run_passes passes ss = (ss, replicate (length passes) [Shown Closing_message])"
  by (induction passes) (auto simp: run_script_exited)

lemma run_script_exit:
  assumes "exited ss \<noteq> Some True"
  shows "\<exists>tr. run_script env Click_exit ss = (exit_state, Rerun, tr)"
proof -
  define ms where "ms = (case messages ss of None \<Rightarrow> [] | Some m \<Rightarrow> m)"
  define ss1 where "ss1 = ss\<lparr> messages := Some ms \<rparr>"
  have ms: "messages ss1 = Some ms" by (simp add: ss1_def)
  have "\<And>i inp. Click_exit \<noteq> Submit i inp" by simp
  from conversation_loop_idle [OF ms this, of env "[0..<length ms div 2 + 1]"]
  obtain tr where
    "conversation_loop env Click_exit [0..<length ms div 2 + 1] ss1 = (ss1, Finished, tr)"
    by blast
  then show ?thesis
    using assms unfolding run_script_def ms_def [symmetric] Let_def ss1_def [symmetric]
    by (simp add: exit_state_def)
qed

lemma run_script_submit:
  assumes "exited ss \<noteq> Some True"
    and "ms = (case messages ss of None \<Rightarrow> [] | Some m \<Rightarrow> m)"
    and "i \<le> length ms div 2"
    and "text \<noteq> []"
  shows "\<exists>pre. run_script env (Submit i text) ss =
           (ss\<lparr> messages := Some (ms @ [\<lparr> role = ''user'', content = text \<rparr>,
                     \<lparr> role = ''assistant'', content = fst (pipeline env text) \<rparr>]) \<rparr>,
            Rerun,
            pre @ [Appended \<lparr> role = ''user'', content = text \<rparr>] @ snd (pipeline env text) @
              [Shown (Live_answer (fst (pipeline env text))),
               Appended \<lparr> role = ''assistant'', content = fst (pipeline env text) \<rparr>]) \<and>
           filter is_appended pre = []"
proof -
  define ss1 where "ss1 = ss\<lparr> messages := Some ms \<rparr>"
  have ms: "messages ss1 = Some ms" by (simp add: ss1_def)
  have upd: "ss1\<lparr> messages := x \<rparr> = ss\<lparr> messages := x \<rparr>" for x
    by (simp add: ss1_def)
  have "i \<in> set [0..<length ms div 2 + 1]" using assms(3) by auto
  from conversation_loop_submit [OF ms assms(4) this, of env]
  obtain pre where pre:
    "conversation_loop env (Submit i text) [0..<length ms div 2 + 1] ss1 =
       (fst (submit_turn env ms ss1 text), Rerun, pre @ snd (submit_turn env ms ss1 text))"
    "filter is_appended pre = []"
    by blast
  have "run_script env (Submit i text) ss =
          (fst (submit_turn env ms ss1 text), Rerun,
           ([Shown Page_title, Shown Intro] @ pre) @ snd (submit_turn env ms ss1 text))"
    using assms(1) pre(1)
    unfolding run_script_def assms(2) [symmetric] Let_def ss1_def [symmetric]
    by simp
  moreover have "filter is_appended ([Shown Page_title, Shown Intro] @ pre) = []"
    using pre(2) by simp
  ultimately show ?thesis
    unfolding submit_turn_eq fst_conv snd_conv upd by blast
qed

lemma run_script_preserves:
  assumes "rest_ok ss" and "run_script env act ss = (ss', c, tr)"
  shows "rest_ok ss'"
proof (cases "exited ss = Some True")
  case True
  with assms show ?thesis by (simp add: run_script_def)
next
  case False
  define ms where "ms = (case messages ss of None \<Rightarrow> [] | Some m \<Rightarrow> m)"
  define ss1 where "ss1 = ss\<lparr> messages := Some ms \<rparr>"
  have ms: "messages ss1 = Some ms" by (simp add: ss1_def)
  have alt: "turns_alternate ms"
    using assms(1) by (cases "messages ss") (auto simp: ms_def rest_ok_def)
  have ok1: "rest_ok ss1" using ms alt by (simp add: rest_ok_def)
  from conversation_loop_cases [OF ms, of env act "[0..<length ms div 2 + 1]"]
  show ?thesis
  proof
    assume "\<exists>tr. conversation_loop env act [0..<length ms div 2 + 1] ss1 = (ss1, Finished, tr)"
    then obtain tr1 where
      "conversation_loop env act [0..<length ms div 2 + 1] ss1 = (ss1, Finished, tr1)" ..
    with assms(2) False have "ss' = exit_state \<or> ss' = ss1"
      unfolding run_script_def ms_def [symmetric] Let_def ss1_def [symmetric]
      by (auto simp: exit_state_def split: if_splits)
    with ok1 show ?thesis by (auto simp: rest_ok_def exit_state_def)
  next
    assume "\<exists>inp tr. conversation_loop env act [0..<length ms div 2 + 1] ss1 =
              (fst (submit_turn env ms ss1 inp), Rerun, tr)"
    then obtain inp tr1 where
      "conversation_loop env act [0..<length ms div 2 + 1] ss1 =
         (fst (submit_turn env ms ss1 inp), Rerun, tr1)" by blast
    with assms(2) False have "ss' = fst (submit_turn env ms ss1 inp)"
      unfolding run_script_def ms_def [symmetric] Let_def ss1_def [symmetric] by simp
    then show ?thesis
      using alt by (simp add: submit_turn_eq rest_ok_def turns_alternate_append)
  qed
qed

lemma reachable_rest_ok: "reachable ss \<Longrightarrow> rest_ok ss"
proof (induction rule: reachable.induct)
  case reachable_new
  then show ?case by (simp add: rest_ok_def new_session_def)
next
  case (reachable_pass ss env act ss' c tr)
  then show ?case using run_script_preserves by blast
next
  case (reachable_widget ss w)
  then show ?case by (simp add: rest_ok_def)
qed


text \<open>
  C1: a pass triggered by the submission of a non-empty text on any of the forms shown
  appends exactly one user turn, runs the pipeline, and then appends exactly one
  assistant turn holding what the pipeline left in \<open>response_text\<close> (the answer or the
  apology, whatever the services did): among the effects of the pass the two appends are
  the only ones, the user's before the pipeline's effects and the assistant's after
  them, and the history afterwards is the old one followed by the two turns.
  Consequently, in every session state reachable between passes the history has even
  length, with a user turn at each even index and an assistant turn at each odd index.
\<close>

theorem submitted_turn_appends_pair:
  "(exited ss \<noteq> Some True \<and> ms = (case messages ss of None \<Rightarrow> [] | Some m \<Rightarrow> m) \<and>
    i \<le> length ms div 2 \<and> text \<noteq> [] \<longrightarrow>
      (\<exists>pre. run_script env (Submit i text) ss =
         (ss\<lparr> messages := Some (ms @ [\<lparr> role = ''user'', content = text \<rparr>,
                   \<lparr> role = ''assistant'', content = fst (pipeline env text) \<rparr>]) \<rparr>,
          Rerun,
          pre @ [Appended \<lparr> role = ''user'', content = text \<rparr>] @ snd (pipeline env text) @
            [Shown (Live_answer (fst (pipeline env text))),
             Appended \<lparr> role = ''assistant'', content = fst (pipeline env text) \<rparr>]) \<and>
         filter is_appended pre = [] \<and> filter is_appended (snd (pipeline env text)) = [])) \<and>
   (reachable ss' \<and> messages ss' = Some ms' \<longrightarrow>
      even (length ms') \<and>
      (\<forall>k<length ms'. role (ms' ! k) = (if even k then ''user'' else ''assistant'')))"
proof (intro conjI impI)
  assume "exited ss \<noteq> Some True \<and> ms = (case messages ss of None \<Rightarrow> [] | Some m \<Rightarrow> m) \<and>
    i \<le> length ms div 2 \<and> text \<noteq> []"
  then show "\<exists>pre. run_script env (Submit i text) ss =
         (ss\<lparr> messages := Some (ms @ [\<lparr> role = ''user'', content = text \<rparr>,
                   \<lparr> role = ''assistant'', content = fst (pipeline env text) \<rparr>]) \<rparr>,
          Rerun,
          pre @ [Appended \<lparr> role = ''user'', content = text \<rparr>] @ snd (pipeline env text) @
            [Shown (Live_answer (fst (pipeline env text))),
             Appended \<lparr> role = ''assistant'', content = fst (pipeline env text) \<rparr>]) \<and>
         filter is_appended pre = [] \<and> filter is_appended (snd (pipeline env text)) = []"
    using run_script_submit [of ss ms i "text" env] pipeline_no_append [of env "text"] by blast
next
  assume r: "reachable ss' \<and> messages ss' = Some ms'"
  then have "turns_alternate ms'"
    using reachable_rest_ok [of ss'] by (simp add: rest_ok_def)
  from turns_alternate_index [OF this]
  show "even (length ms')"
    and "\<forall>k<length ms'. role (ms' ! k) = (if even k then ''user'' else ''assistant'')"
    by simp_all
qed

lemma run_script_broken:
  "run_script env_broken_stream (Submit 0 ''serum'') new_session =
     (\<lparr> messages = Some [\<lparr> role = ''user'', content = ''serum'' \<rparr>,
                        \<lparr> role = ''assistant'', content = fallback_response \<rparr>],
        exited = None, widgets = Map.empty \<rparr>,
      Rerun,
      [Shown Page_title, Shown Intro, Shown (Chat_form 0), Shown (Autofocus_script 0),
       Appended \<lparr> role = ''user'', content = ''serum'' \<rparr>,
       Embed_request ''serum'', Search_request [PyFloat 1 0],
       Completion_request (build_prompt ''[...]'' ''serum''),
       Raised (ServiceError ''connection lost''),
       Shown (Live_answer fallback_response),
       Appended \<lparr> role = ''assistant'', content = fallback_response \<rparr>])"
  by (simp add: run_script_def new_session_def submit_turn_eq pipeline_broken)

theorem submitted_turn_appends_pair_witness:
  "run_script env_broken_stream (Submit 0 ''serum'') new_session =
     (\<lparr> messages = Some [\<lparr> role = ''user'', content = ''serum'' \<rparr>,
                        \<lparr> role = ''assistant'', content = fallback_response \<rparr>],
        exited = None, widgets = Map.empty \<rparr>,
      Rerun,
      [Shown Page_title, Shown Intro, Shown (Chat_form 0), Shown (Autofocus_script 0)] @
      [Appended \<lparr> role = ''user'', content = ''serum'' \<rparr>] @
      snd (pipeline env_broken_stream ''serum'') @
      [Shown (Live_answer fallback_response),
       Appended \<lparr> role = ''assistant'', content = fallback_response \<rparr>]) \<and>
   reachable \<lparr> messages = Some [\<lparr> role = ''user'', content = ''serum'' \<rparr>,
                        \<lparr> role = ''assistant'', content = fallback_response \<rparr>],
        exited = None, widgets = Map.empty \<rparr> \<and>
   even (length [\<lparr> role = ''user'', content = ''serum'' \<rparr>,
                 \<lparr> role = ''assistant'', content = fallback_response \<rparr>]) \<and>
   role ([\<lparr> role = ''user'', content = ''serum'' \<rparr>,
          \<lparr> role = ''assistant'', content = fallback_response \<rparr>] ! 0) = ''user'' \<and>
   role ([\<lparr> role = ''user'', content = ''serum'' \<rparr>,
          \<lparr> role = ''assistant'', content = fallback_response \<rparr>] ! 1) = ''assistant''"
proof -
  let ?ms = "[\<lparr> role = ''user'', content = ''serum'' \<rparr>,
              \<lparr> role = ''assistant'', content = fallback_response \<rparr>]"
  let ?ss = "\<lparr> messages = Some ?ms, exited = None, widgets = Map.empty \<rparr>"
  have reach: "reachable ?ss"
    using reachable_pass [OF reachable_new run_script_broken] .
  have pre: "exited new_session \<noteq> Some True \<and>
      [] = (case messages new_session of None \<Rightarrow> [] | Some m \<Rightarrow> m) \<and>
      (0::nat) \<le> length ([]::turn list) div 2 \<and> ''serum'' \<noteq> []"
    by (simp add: new_session_def)
  have msgs: "messages ?ss = Some ?ms" by simp
  from submitted_turn_appends_pair [of new_session "[]" 0 "''serum''" env_broken_stream ?ss ?ms]
    pre reach msgs
  have idx: "\<forall>k<length ?ms. role (?ms ! k) = (if even k then ''user'' else ''assistant'')"
    and ev: "even (length ?ms)"
    by blast+
  from idx have "role (?ms ! 0) = ''user''" "role (?ms ! 1) = ''assistant''"
    by simp_all
  with reach ev show ?thesis
    by (simp add: run_script_broken pipeline_broken)
qed

text \<open>
  C6: when the exit button is clicked on the conversation page, the pass ends in a rerun
  with a session state that holds the exit flag and nothing else: no history, no widget
  value. From that state every later pass, whatever triggers it and whatever the services
  would do, renders the closing message alone and leaves the state as it is, so the
  history stays out of reach for the rest of the session.
\<close>

theorem exit_clears_session:
  assumes "exited ss \<noteq> Some True"
  shows "(\<exists>tr. run_script env Click_exit ss =
            (\<lparr> messages = None, exited = Some True, widgets = Map.empty \<rparr>, Rerun, tr)) \<and>
         run_passes passes \<lparr> messages = None, exited = Some True, widgets = Map.empty \<rparr> =
           (\<lparr> messages = None, exited = Some True, widgets = Map.empty \<rparr>,
            replicate (length passes) [Shown Closing_message])"
  using run_script_exit [OF assms, of env]
    run_passes_exited [of "\<lparr> messages = None, exited = Some True, widgets = Map.empty \<rparr>" passes]
  by (simp add: exit_state_def)

theorem exit_clears_session_witness:
  "fst (run_script env_ok Click_exit example_session) =
     \<lparr> messages = None, exited = Some True, widgets = Map.empty \<rparr> \<and>
   run_passes [(env_ok, No_action), (env_ok, Submit 0 ''serum''), (env_ok, Click_exit)]
     \<lparr> messages = None, exited = Some True, widgets = Map.empty \<rparr> =
     (\<lparr> messages = None, exited = Some True, widgets = Map.empty \<rparr>,
      [[Shown Closing_message], [Shown Closing_message], [Shown Closing_message]])"
proof -
  have "exited example_session \<noteq> Some True"
    by (simp add: example_session_def)
  from exit_clears_session [OF this, of env_ok
      "[(env_ok, No_action), (env_ok, Submit 0 ''serum''), (env_ok, Click_exit)]"]
  show ?thesis by auto
qed

end
